theory Spec2Isabelle
  imports Complex_Main
begin

section \<open>Strings, errors and loops\<close>

text \<open>
  A Python string is a sequence of Unicode code points. A character is modelled by its
  code point and a string by the list of its code points, so that \<open>length\<close> is Python's
  \<open>len\<close>. \<open>py\<close> reads an ASCII literal as such a string.
\<close>

type_synonym pychar = nat
type_synonym pystr = "nat list"

definition py :: "string \<Rightarrow> pystr" where
  "py s = map of_char s"

text \<open>
  The exceptions the two modules can raise. Neither module defines an exception class of
  its own: a cost tuple of the wrong length fails at the tuple assignment (ValueError),
  \<open>cost[2]\<close> on a short tuple is an IndexError, an unknown layout or metric name is a
  KeyError of the dictionary lookup, and a character that is on no key of the layout is
  the ValueError raised by \<open>_kb_array_for_char\<close>, which carries the character.
  A division by zero is an exception for Python numbers and an infinity or a NaN for
  numpy numbers; both are reported as \<open>ZeroDivisionError\<close>: no number is returned.
  Storing a Python integer that does not fit 64 bits into the table of \<open>editex\<close> is an
  OverflowError. Storing a float beyond the 64-bit range is a conversion that C leaves
  undefined; it is reported as \<open>CastError\<close>: no value is modelled for it.
\<close>

datatype error =
    UnpackError
  | IndexError
  | KeyError pystr
  | CharNotFound pychar
  | NoneUnpackError
  | ZeroDivisionError
  | OverflowError
  | CastError

text \<open>A \<open>for\<close> loop whose body may raise: the first exception ends the loop.\<close>

fun for_loop :: "('a \<Rightarrow> 's \<Rightarrow> error + 's) \<Rightarrow> 'a list \<Rightarrow> 's \<Rightarrow> error + 's" where
  "for_loop body [] s = Inr s"
| "for_loop body (x # xs) s =
     (case body x s of Inl e \<Rightarrow> Inl e | Inr s' \<Rightarrow> for_loop body xs s')"

section \<open>Numbers\<close>

text \<open>
  A cost is a Python number: an integer of any size or a float. A float is read as a
  real number (no rounding). \<open>py_mul\<close> is \<open>len(s) * cost\<close>, an integer for an integer
  cost and a float for a float.
\<close>

datatype pynum = PyInt int | PyFloat real

fun num_val :: "pynum \<Rightarrow> real" where
  "num_val (PyInt n) = real_of_int n"
| "num_val (PyFloat r) = r"

fun py_mul :: "nat \<Rightarrow> pynum \<Rightarrow> pynum" where
  "py_mul k (PyInt n) = PyInt (int k * n)"
| "py_mul k (PyFloat r) = PyFloat (real k * r)"

text \<open>
  The table of \<open>editex\<close> is a numpy array of integers (\<open>dtype=np_int\<close>, numpy's
  default integer: 64 bits wherever the \<open>long\<close> of C has 64 bits, which the model
  takes), and an entry read from it is a numpy 64-bit integer. Adding a cost to an
  entry follows the scalar arithmetic of the numpy versions that export \<open>numpy.int\<close>,
  which the module imports: with a Python integer that fits 64 bits the sum is a
  64-bit integer and wraps around; with a larger integer below \<open>2 ^ 64\<close> it is a
  float; with any other Python integer it is a Python integer; with a float it is a
  float.
\<close>

datatype npval = Int64 int | Float64 real | PyObject int

definition wrap64 :: "int \<Rightarrow> int" where
  "wrap64 n = (n + 2 ^ 63) mod 2 ^ 64 - 2 ^ 63"

fun np_add :: "int \<Rightarrow> pynum \<Rightarrow> npval" where
  "np_add cell (PyFloat r) = Float64 (real_of_int cell + r)"
| "np_add cell (PyInt n) =
     (if - (2 ^ 63) \<le> n \<and> n < 2 ^ 63 then Int64 (wrap64 (cell + n))
      else if 2 ^ 63 \<le> n \<and> n < 2 ^ 64 then Float64 (real_of_int cell + real_of_int n)
      else PyObject (cell + n))"

fun np_val :: "npval \<Rightarrow> real" where
  "np_val (Int64 n) = real_of_int n"
| "np_val (Float64 r) = r"
| "np_val (PyObject n) = real_of_int n"

text \<open>
  \<open>min(a, b, c)\<close> of Python keeps the first argument unless a later one is smaller.
\<close>

definition py_min3 :: "npval \<Rightarrow> npval \<Rightarrow> npval \<Rightarrow> npval" where
  "py_min3 a b c =
     (let least = a;
          least = (if np_val b < np_val least then b else least);
          least = (if np_val c < np_val least then c else least)
      in least)"

text \<open>
  The assignment \<open>d_mat[i, j] = v\<close> converts \<open>v\<close> to a 64-bit integer: a 64-bit integer
  is stored as it is, a float is truncated towards zero, a Python integer must fit.
\<close>

definition py_trunc :: "real \<Rightarrow> int" where
  "py_trunc r = (if 0 \<le> r then \<lfloor>r\<rfloor> else \<lceil>r\<rceil>)"

fun np_store :: "npval \<Rightarrow> error + int" where
  "np_store (Int64 n) = Inr n"
| "np_store (Float64 r) =
     (if - (2 ^ 63) \<le> py_trunc r \<and> py_trunc r < 2 ^ 63 then Inr (py_trunc r) else Inl CastError)"
| "np_store (PyObject n) =
     (if - (2 ^ 63) \<le> n \<and> n < 2 ^ 63 then Inr n else Inl OverflowError)"

section \<open>Editex (distance/editex.py)\<close>

text \<open>
  The letter groups and the alphabet of \<open>editex\<close>. The alphabet has 24 letters: H and W
  are in no group and not in \<open>all_letters\<close>.
\<close>

definition letter_groups :: "pystr list" where
  "letter_groups = map py [''AEIOUY'', ''BP'', ''CKQ'', ''DT'', ''LR'', ''MN'', ''GJ'',
                           ''FPV'', ''SXZ'', ''CSZ'']"

definition all_letters :: "pystr" where
  "all_letters = py ''ABCDEFGIJKLMNOPQRSTUVXYZ''"

definition r_cost :: "pynum \<Rightarrow> pynum \<Rightarrow> pynum \<Rightarrow> pychar \<Rightarrow> pychar \<Rightarrow> pynum" where
  "r_cost match_cost group_cost mismatch_cost ch1 ch2 =
     (if ch1 = ch2 then match_cost
      else if ch1 \<in> set all_letters \<and> ch2 \<in> set all_letters
              \<and> list_ex (\<lambda>group. ch1 \<in> set group \<and> ch2 \<in> set group) letter_groups
           then group_cost
      else mismatch_cost)"

definition d_cost :: "pynum \<Rightarrow> pynum \<Rightarrow> pynum \<Rightarrow> pychar \<Rightarrow> pychar \<Rightarrow> pynum" where
  "d_cost match_cost group_cost mismatch_cost ch1 ch2 =
     (if ch1 \<noteq> ch2 \<and> (ch1 = 72 \<or> ch1 = 87) then group_cost
      else r_cost match_cost group_cost mismatch_cost ch1 ch2)"

text \<open>
  \<open>str.upper\<close> and \<open>unicodedata.normalize('NFKD', _)\<close> are library functions; \<open>editex\<close>
  takes them as the parameters \<open>upper\<close> and \<open>nfkd\<close>, so that a theorem about all strings
  holds whatever the Unicode tables say. The replacement of U+00DF by \<open>SS\<close> is the
  source's own.
\<close>

definition replace_eszett :: "pystr \<Rightarrow> pystr" where
  "replace_eszett s = concat (map (\<lambda>c. if c = 223 then [83, 83] else [c]) s)"

definition preprocess :: "(pystr \<Rightarrow> pystr) \<Rightarrow> (pystr \<Rightarrow> pystr) \<Rightarrow> pystr \<Rightarrow> pystr" where
  "preprocess upper nfkd s = replace_eszett (nfkd (upper s))"

text \<open>
  \<open>d_mat\<close> is an array of shape \<open>(len(src)+1, len(tar)+1)\<close> filled with zeros. It is
  modelled as a function of the index pair; every index the loops use is inside the
  shape. An entry of the table of \<open>editex\<close> is an integer between \<open>- 2 ^ 63\<close> and
  \<open>2 ^ 63 - 1\<close>: \<open>np_store\<close> yields no other.
\<close>

type_synonym 'a matrix = "nat \<times> nat \<Rightarrow> 'a"

definition np_zeros :: "'a::zero matrix" where
  "np_zeros = (\<lambda>_. 0)"

text \<open>
  The loops of \<open>editex\<close>; \<open>src\<close> and \<open>tar\<close> carry the leading blank here. Each loop
  body is a function of the loop variable and the matrix: it adds, takes the least and
  stores, and the store can fail.
\<close>

definition editex_col0_step :: "(pychar \<Rightarrow> pychar \<Rightarrow> pynum) \<Rightarrow> pystr \<Rightarrow> nat \<Rightarrow> int matrix
    \<Rightarrow> error + int matrix" where
  "editex_col0_step dc src i d_mat =
     (case np_store (np_add (d_mat (i - 1, 0)) (dc (src ! (i - 1)) (src ! i))) of
        Inl e \<Rightarrow> Inl e
      | Inr v \<Rightarrow> Inr (d_mat((i, 0) := v)))"

definition editex_col0 :: "(pychar \<Rightarrow> pychar \<Rightarrow> pynum) \<Rightarrow> pystr \<Rightarrow> nat \<Rightarrow> int matrix
    \<Rightarrow> error + int matrix" where
  "editex_col0 dc src lens = for_loop (editex_col0_step dc src) [1..<lens + 1]"

definition editex_row0_step :: "(pychar \<Rightarrow> pychar \<Rightarrow> pynum) \<Rightarrow> pystr \<Rightarrow> nat \<Rightarrow> int matrix
    \<Rightarrow> error + int matrix" where
  "editex_row0_step dc tar j d_mat =
     (case np_store (np_add (d_mat (0, j - 1)) (dc (tar ! (j - 1)) (tar ! j))) of
        Inl e \<Rightarrow> Inl e
      | Inr v \<Rightarrow> Inr (d_mat((0, j) := v)))"

definition editex_row0 :: "(pychar \<Rightarrow> pychar \<Rightarrow> pynum) \<Rightarrow> pystr \<Rightarrow> nat \<Rightarrow> int matrix
    \<Rightarrow> error + int matrix" where
  "editex_row0 dc tar lent = for_loop (editex_row0_step dc tar) [1..<lent + 1]"

definition editex_cell :: "(pychar \<Rightarrow> pychar \<Rightarrow> pynum) \<Rightarrow> (pychar \<Rightarrow> pychar \<Rightarrow> pynum) \<Rightarrow> pystr
    \<Rightarrow> pystr \<Rightarrow> nat \<Rightarrow> nat \<Rightarrow> int matrix \<Rightarrow> error + int matrix" where
  "editex_cell dc rc src tar i j d_mat =
     (case np_store
             (py_min3 (np_add (d_mat (i - 1, j)) (dc (src ! (i - 1)) (src ! i)))
                      (np_add (d_mat (i, j - 1)) (dc (tar ! (j - 1)) (tar ! j)))
                      (np_add (d_mat (i - 1, j - 1)) (rc (src ! i) (tar ! j)))) of
        Inl e \<Rightarrow> Inl e
      | Inr v \<Rightarrow> Inr (d_mat((i, j) := v)))"

definition editex_row :: "(pychar \<Rightarrow> pychar \<Rightarrow> pynum) \<Rightarrow> (pychar \<Rightarrow> pychar \<Rightarrow> pynum) \<Rightarrow> pystr
    \<Rightarrow> pystr \<Rightarrow> nat \<Rightarrow> nat \<Rightarrow> int matrix \<Rightarrow> error + int matrix" where
  "editex_row dc rc src tar lent i = for_loop (editex_cell dc rc src tar i) [1..<lent + 1]"

definition editex_fill :: "(pychar \<Rightarrow> pychar \<Rightarrow> pynum) \<Rightarrow> (pychar \<Rightarrow> pychar \<Rightarrow> pynum) \<Rightarrow> pystr
    \<Rightarrow> pystr \<Rightarrow> nat \<Rightarrow> nat \<Rightarrow> int matrix \<Rightarrow> error + int matrix" where
  "editex_fill dc rc src tar lens lent = for_loop (editex_row dc rc src tar lent) [1..<lens + 1]"

text \<open>
  The three loops in the order of the source: column 0 unless \<open>local\<close>, row 0, then
  the rows.
\<close>

definition editex_dp :: "(pychar \<Rightarrow> pychar \<Rightarrow> pynum) \<Rightarrow> (pychar \<Rightarrow> pychar \<Rightarrow> pynum) \<Rightarrow> pystr
    \<Rightarrow> pystr \<Rightarrow> nat \<Rightarrow> nat \<Rightarrow> bool \<Rightarrow> error + int matrix" where
  "editex_dp dc rc src tar lens lent local =
     (case (if \<not> local then editex_col0 dc src lens np_zeros else Inr np_zeros) of
        Inl e \<Rightarrow> Inl e
      | Inr d_mat \<Rightarrow>
          (case editex_row0 dc tar lent d_mat of
             Inl e \<Rightarrow> Inl e
           | Inr d_mat \<Rightarrow> editex_fill dc rc src tar lens lent d_mat))"

text \<open>
  The early returns give a Python number (\<open>0\<close>, or a length times the mismatch cost),
  the table gives its last entry.
\<close>

definition editex :: "(pystr \<Rightarrow> pystr) \<Rightarrow> (pystr \<Rightarrow> pystr) \<Rightarrow> pystr \<Rightarrow> pystr \<Rightarrow> pynum list \<Rightarrow> bool
    \<Rightarrow> error + pynum" where
  "editex upper nfkd src0 tar0 cost local =
     (case cost of
        [match_cost, group_cost, mismatch_cost] \<Rightarrow>
          (let src = preprocess upper nfkd src0;
               tar = preprocess upper nfkd tar0
           in if src = tar then Inr (PyInt 0)
              else if src = [] then Inr (py_mul (length tar) mismatch_cost)
              else if tar = [] then Inr (py_mul (length src) mismatch_cost)
              else
                (let dc = d_cost match_cost group_cost mismatch_cost;
                     rc = r_cost match_cost group_cost mismatch_cost;
                     lens = length src;
                     lent = length tar;
                     src = 32 # src;
                     tar = 32 # tar
                 in case editex_dp dc rc src tar lens lent local of
                      Inl e \<Rightarrow> Inl e
                    | Inr d_mat \<Rightarrow> Inr (PyInt (d_mat (lens, lent)))))
      | _ \<Rightarrow> Inl UnpackError)"

text \<open>
  \<open>dist_editex\<close> compares and measures the strings as given; only \<open>editex\<close> preprocesses
  them. \<open>cost[2]\<close> is read before \<open>editex\<close> is called. The quotient is a float.
\<close>

definition dist_editex :: "(pystr \<Rightarrow> pystr) \<Rightarrow> (pystr \<Rightarrow> pystr) \<Rightarrow> pystr \<Rightarrow> pystr \<Rightarrow> pynum list
    \<Rightarrow> bool \<Rightarrow> error + real" where
  "dist_editex upper nfkd src tar cost local =
     (if src = tar then Inr 0
      else if length cost < 3 then Inl IndexError
      else
        (let mismatch_cost = cost ! 2
         in case editex upper nfkd src tar cost local of
              Inl e \<Rightarrow> Inl e
            | Inr raw \<Rightarrow>
                (let denom = max (num_val (py_mul (length src) mismatch_cost))
                                 (num_val (py_mul (length tar) mismatch_cost))
                 in if denom = 0 then Inl ZeroDivisionError
                    else Inr (num_val raw / denom))))"

definition sim_editex :: "(pystr \<Rightarrow> pystr) \<Rightarrow> (pystr \<Rightarrow> pystr) \<Rightarrow> pystr \<Rightarrow> pystr \<Rightarrow> pynum list
    \<Rightarrow> bool \<Rightarrow> error + real" where
  "sim_editex upper nfkd src tar cost local =
     (case dist_editex upper nfkd src tar cost local of
        Inl e \<Rightarrow> Inl e
      | Inr dst \<Rightarrow> Inr (1 - dst))"

text \<open>
  The table as a recurrence on the two indices, for costs that keep every sum inside
  the 64-bit range: column 0 accumulates \<open>d_cost\<close> unless \<open>local\<close>, row 0 accumulates
  \<open>d_cost\<close>, an inner entry is the least of deletion, insertion and substitution, and
  every entry is rounded down to an integer when it is stored. It is used in proofs
  only; \<open>editex_dp_table\<close> below shows that the loops of \<open>editex\<close> compute it.
\<close>

fun editex_table :: "bool \<Rightarrow> (pychar \<Rightarrow> pychar \<Rightarrow> pynum) \<Rightarrow> (pychar \<Rightarrow> pychar \<Rightarrow> pynum) \<Rightarrow> pystr
    \<Rightarrow> pystr \<Rightarrow> nat \<Rightarrow> nat \<Rightarrow> int" where
  "editex_table local dc rc src tar 0 0 = 0"
| "editex_table local dc rc src tar (Suc i) 0 =
     (if local then 0
      else \<lfloor>real_of_int (editex_table local dc rc src tar i 0)
             + num_val (dc (src ! i) (src ! Suc i))\<rfloor>)"
| "editex_table local dc rc src tar 0 (Suc j) =
     \<lfloor>real_of_int (editex_table local dc rc src tar 0 j) + num_val (dc (tar ! j) (tar ! Suc j))\<rfloor>"
| "editex_table local dc rc src tar (Suc i) (Suc j) =
     \<lfloor>min (real_of_int (editex_table local dc rc src tar i (Suc j))
              + num_val (dc (src ! i) (src ! Suc i)))
         (min (real_of_int (editex_table local dc rc src tar (Suc i) j)
                 + num_val (dc (tar ! j) (tar ! Suc j)))
              (real_of_int (editex_table local dc rc src tar i j)
                 + num_val (rc (src ! Suc i) (tar ! Suc j))))\<rfloor>"

text \<open>
  For the evaluation at concrete strings: \<open>str.upper\<close> and NFKD on strings of ASCII
  characters and U+00DF. \<open>str.upper\<close> maps a to z to A to Z and U+00DF to \<open>SS\<close> (Python 3;
  Python 2 leaves U+00DF to the replacement that follows, with the same result), and
  NFKD changes none of these characters. Every other code point is passed through, so
  the two functions stand for the library on those strings only.
\<close>

definition ascii_upper :: "pystr \<Rightarrow> pystr" where
  "ascii_upper s = concat (map (\<lambda>c. if 97 \<le> c \<and> c \<le> 122 then [c - 32]
                                     else if c = 223 then [83, 83] else [c]) s)"

definition ascii_nfkd :: "pystr \<Rightarrow> pystr" where
  "ascii_nfkd s = s"

section \<open>Typo distance (distance/typo.py)\<close>

text \<open>
  A keyboard is a pair of tables, unshifted and shifted, each a tuple of rows of key
  strings. A key string is one character, or empty where a row leaves a slot free; one
  key of the QWERTZ table is a blank followed by U+00FC. \<open>keys\<close> spells a run of
  one-character keys; the other keys are given by their code points.
\<close>

type_synonym kb_array = "pystr list list"
type_synonym keyboard = "kb_array \<times> kb_array"

definition keys :: "string \<Rightarrow> pystr list" where
  "keys s = map (\<lambda>c. [of_char c]) s"

definition qwerty_lower :: "kb_array" where
  "qwerty_lower =
     [[[96]] @ keys ''1234567890'' @ [[45], [61]],
      [[]] @ keys ''qwertyuiop'' @ [[91], [93], [92]],
      [[]] @ keys ''asdfghjkl'' @ [[59], [39]],
      [[]] @ keys ''zxcvbnm'' @ [[44], [46], [47]]]"

definition qwerty_upper :: "kb_array" where
  "qwerty_upper =
     [[[126], [33], [64], [35], [36], [37], [94], [38], [42], [40], [41], [95], [43]],
      [[]] @ keys ''QWERTYUIOP'' @ [[123], [125], [124]],
      [[]] @ keys ''ASDFGHJKL'' @ [[58], [34]],
      [[]] @ keys ''ZXCVBNM'' @ [[60], [62], [63]]]"

definition dvorak_lower :: "kb_array" where
  "dvorak_lower =
     [[[96]] @ keys ''1234567890'' @ [[91], [93]],
      [[], [39], [44], [46]] @ keys ''pyfgcrl'' @ [[47], [61], [92]],
      [[]] @ keys ''aoeuidhtns'' @ [[45]],
      [[], [59]] @ keys ''qjkxbmwvz'']"

definition dvorak_upper :: "kb_array" where
  "dvorak_upper =
     [[[126], [33], [64], [35], [36], [37], [94], [38], [42], [40], [41], [123], [125]],
      [[], [34], [60], [62]] @ keys ''PYFGCRL'' @ [[63], [43], [124]],
      [[]] @ keys ''AOEUIDHTNS'' @ [[95]],
      [[], [58]] @ keys ''QJKXBMWVZ'']"

definition azerty_lower :: "kb_array" where
  "azerty_lower =
     [[[178], [38], [233], [34], [39], [40], [45], [232], [95], [231], [224], [41], [61]],
      [[]] @ keys ''azertyuiop'' @ [[], [36]],
      [[]] @ keys ''qsdfghjklm'' @ [[249], [42]],
      [[60]] @ keys ''wxcvbn'' @ [[44], [59], [58], [33]]]"

definition azerty_upper :: "kb_array" where
  "azerty_upper =
     [[[126]] @ keys ''1234567890'' @ [[176], [43]],
      [[]] @ keys ''AWERTYUIOP'' @ [[], [163]],
      [[]] @ keys ''QSDFGHJKLM'' @ [[217], [956]],
      [[62]] @ keys ''WXCVBN'' @ [[63], [46], [47], [167]]]"

definition qwertz_lower :: "kb_array" where
  "qwertz_lower =
     [[[]] @ keys ''1234567890'' @ [[223], []],
      [[]] @ keys ''qwertzuiop'' @ [[32, 252], [43], [92]],
      [[]] @ keys ''asdfghjkl'' @ [[246], [228], [35]],
      [[60]] @ keys ''yxcvbnm'' @ [[44], [46], [45]]]"

definition qwertz_upper :: "kb_array" where
  "qwertz_upper =
     [[[176], [33], [34], [167], [36], [37], [38], [47], [40], [41], [61], [63], []],
      [[]] @ keys ''QWERTZUIOP'' @ [[220], [42], []],
      [[]] @ keys ''ASDFGHJKL'' @ [[214], [196], [39]],
      [[62]] @ keys ''YXCVBNM'' @ [[59], [58], [95]]]"

definition kbs :: "pystr \<rightharpoonup> keyboard" where
  "kbs = map_of
     [(py ''QWERTY'', (qwerty_lower, qwerty_upper)),
      (py ''Dvorak'', (dvorak_lower, dvorak_upper)),
      (py ''AZERTY'', (azerty_lower, azerty_upper)),
      (py ''QWERTZ'', (qwertz_lower, qwertz_upper))]"

text \<open>
  \<open>lowercase\<close> and \<open>uppercase\<close> are the sets of the key strings of the two tables; a
  character is looked up as the string of length one.
\<close>

definition lowercase :: "keyboard \<Rightarrow> pystr set" where
  "lowercase keyboard = set (concat (fst keyboard))"

definition uppercase :: "keyboard \<Rightarrow> pystr set" where
  "uppercase keyboard = set (concat (snd keyboard))"

definition kb_array_for_char :: "keyboard \<Rightarrow> pychar \<Rightarrow> error + kb_array" where
  "kb_array_for_char keyboard char =
     (if [char] \<in> lowercase keyboard then Inr (fst keyboard)
      else if [char] \<in> uppercase keyboard then Inr (snd keyboard)
      else Inl (CharNotFound char))"

text \<open>\<open>tuple.index\<close>: the position of the first equal element, if there is one.\<close>

fun index_of :: "'a list \<Rightarrow> 'a \<Rightarrow> nat option" where
  "index_of [] y = None"
| "index_of (x # xs) y = (if x = y then Some 0 else map_option Suc (index_of xs y))"

text \<open>
  \<open>_get_char_coord\<close> returns from the first row that holds the character; when no row
  does, the Python function returns \<open>None\<close>.
\<close>

definition get_char_coord :: "pychar \<Rightarrow> kb_array \<Rightarrow> (nat \<times> nat) option" where
  "get_char_coord char kb_array =
     (case find (\<lambda>row. [char] \<in> set row) kb_array of
        None \<Rightarrow> None
      | Some row \<Rightarrow>
          (case index_of kb_array row of
             None \<Rightarrow> None
           | Some r \<Rightarrow> (case index_of row [char] of None \<Rightarrow> None | Some c \<Rightarrow> Some (r, c))))"

text \<open>
  \<open>row, col = _get_char_coord(char, _kb_array_for_char(char))\<close>: the table lookup may
  raise, and unpacking \<open>None\<close> would.
\<close>

definition char_coord :: "keyboard \<Rightarrow> pychar \<Rightarrow> error + nat \<times> nat" where
  "char_coord keyboard char =
     (case kb_array_for_char keyboard char of
        Inl e \<Rightarrow> Inl e
      | Inr kb_array \<Rightarrow>
          (case get_char_coord char kb_array of
             None \<Rightarrow> Inl NoneUnpackError
           | Some rc \<Rightarrow> Inr rc))"

text \<open>
  The four metrics. Rows and columns are Python integers; the results are floats, which
  the model reads as real numbers (no rounding).
\<close>

definition euclidean_keyboard_distance :: "keyboard \<Rightarrow> pychar \<Rightarrow> pychar \<Rightarrow> error + real" where
  "euclidean_keyboard_distance keyboard char1 char2 =
     (case char_coord keyboard char1 of
        Inl e \<Rightarrow> Inl e
      | Inr (row1, col1) \<Rightarrow>
          (case char_coord keyboard char2 of
             Inl e \<Rightarrow> Inl e
           | Inr (row2, col2) \<Rightarrow>
               Inr (sqrt (real_of_int ((int row1 - int row2)\<^sup>2 + (int col1 - int col2)\<^sup>2)))))"

definition manhattan_keyboard_distance :: "keyboard \<Rightarrow> pychar \<Rightarrow> pychar \<Rightarrow> error + real" where
  "manhattan_keyboard_distance keyboard char1 char2 =
     (case char_coord keyboard char1 of
        Inl e \<Rightarrow> Inl e
      | Inr (row1, col1) \<Rightarrow>
          (case char_coord keyboard char2 of
             Inl e \<Rightarrow> Inl e
           | Inr (row2, col2) \<Rightarrow>
               Inr (real_of_int (\<bar>int row1 - int row2\<bar> + \<bar>int col1 - int col2\<bar>))))"

definition log_euclidean_keyboard_distance :: "keyboard \<Rightarrow> pychar \<Rightarrow> pychar \<Rightarrow> error + real" where
  "log_euclidean_keyboard_distance keyboard char1 char2 =
     (case euclidean_keyboard_distance keyboard char1 char2 of
        Inl e \<Rightarrow> Inl e
      | Inr x \<Rightarrow> Inr (ln (1 + x)))"

definition log_manhattan_keyboard_distance :: "keyboard \<Rightarrow> pychar \<Rightarrow> pychar \<Rightarrow> error + real" where
  "log_manhattan_keyboard_distance keyboard char1 char2 =
     (case manhattan_keyboard_distance keyboard char1 char2 of
        Inl e \<Rightarrow> Inl e
      | Inr x \<Rightarrow> Inr (ln (1 + x)))"

definition metric_dict :: "pystr \<rightharpoonup> (keyboard \<Rightarrow> pychar \<Rightarrow> pychar \<Rightarrow> error + real)" where
  "metric_dict = map_of
     [(py ''euclidean'', euclidean_keyboard_distance),
      (py ''manhattan'', manhattan_keyboard_distance),
      (py ''log-euclidean'', log_euclidean_keyboard_distance),
      (py ''log-manhattan'', log_manhattan_keyboard_distance)]"

text \<open>
  \<open>_substitution_cost\<close>: the metric is looked up by name at every call, then called,
  then the two tables are compared (as tuples) for the shift cost.
\<close>

definition substitution_cost :: "keyboard \<Rightarrow> pystr \<Rightarrow> real \<Rightarrow> real \<Rightarrow> pychar \<Rightarrow> pychar \<Rightarrow> error + real" where
  "substitution_cost keyboard metric sub_cost shift_cost char1 char2 =
     (case metric_dict metric of
        None \<Rightarrow> Inl (KeyError metric)
      | Some metric_fn \<Rightarrow>
          (case metric_fn keyboard char1 char2 of
             Inl e \<Rightarrow> Inl e
           | Inr x \<Rightarrow>
               (case kb_array_for_char keyboard char1 of
                  Inl e \<Rightarrow> Inl e
                | Inr kb1 \<Rightarrow>
                    (case kb_array_for_char keyboard char2 of
                       Inl e \<Rightarrow> Inl e
                     | Inr kb2 \<Rightarrow>
                         Inr (sub_cost * (x + shift_cost * (if kb1 \<noteq> kb2 then 1 else 0)))))))"

text \<open>
  The loops of \<open>typo\<close>. The two boundary loops cannot raise; the body of the double loop
  calls \<open>_substitution_cost\<close> when the two characters differ, so it can.
\<close>

definition typo_col0_step :: "real \<Rightarrow> nat \<Rightarrow> real matrix \<Rightarrow> real matrix" where
  "typo_col0_step del_cost i d_mat = d_mat((i, 0) := real i * del_cost)"

definition typo_row0_step :: "real \<Rightarrow> nat \<Rightarrow> real matrix \<Rightarrow> real matrix" where
  "typo_row0_step ins_cost j d_mat = d_mat((0, j) := real j * ins_cost)"

definition typo_cell :: "keyboard \<Rightarrow> pystr \<Rightarrow> real \<Rightarrow> real \<Rightarrow> real \<Rightarrow> real \<Rightarrow> pystr \<Rightarrow> pystr
    \<Rightarrow> nat \<Rightarrow> nat \<Rightarrow> real matrix \<Rightarrow> error + real matrix" where
  "typo_cell keyboard metric ins_cost del_cost sub_cost shift_cost src tar i j d_mat =
     (case (if src ! i \<noteq> tar ! j
            then substitution_cost keyboard metric sub_cost shift_cost (src ! i) (tar ! j)
            else Inr 0) of
        Inl e \<Rightarrow> Inl e
      | Inr sub \<Rightarrow>
          Inr (d_mat((i + 1, j + 1) :=
                 min (d_mat (i + 1, j) + ins_cost)
                   (min (d_mat (i, j + 1) + del_cost) (d_mat (i, j) + sub)))))"

definition typo_row :: "keyboard \<Rightarrow> pystr \<Rightarrow> real \<Rightarrow> real \<Rightarrow> real \<Rightarrow> real \<Rightarrow> pystr \<Rightarrow> pystr
    \<Rightarrow> nat \<Rightarrow> real matrix \<Rightarrow> error + real matrix" where
  "typo_row keyboard metric ins_cost del_cost sub_cost shift_cost src tar i =
     for_loop (typo_cell keyboard metric ins_cost del_cost sub_cost shift_cost src tar i)
       [0..<length tar]"

definition typo_fill :: "keyboard \<Rightarrow> pystr \<Rightarrow> real \<Rightarrow> real \<Rightarrow> real \<Rightarrow> real \<Rightarrow> pystr \<Rightarrow> pystr
    \<Rightarrow> real matrix \<Rightarrow> error + real matrix" where
  "typo_fill keyboard metric ins_cost del_cost sub_cost shift_cost src tar =
     for_loop (typo_row keyboard metric ins_cost del_cost sub_cost shift_cost src tar)
       [0..<length src]"

definition typo_init :: "real \<Rightarrow> real \<Rightarrow> pystr \<Rightarrow> pystr \<Rightarrow> real matrix" where
  "typo_init ins_cost del_cost src tar =
     fold (typo_row0_step ins_cost) [0..<length tar + 1]
       (fold (typo_col0_step del_cost) [0..<length src + 1] np_zeros)"

definition typo :: "pystr \<Rightarrow> pystr \<Rightarrow> pystr \<Rightarrow> real list \<Rightarrow> pystr \<Rightarrow> error + real" where
  "typo src tar metric cost layout =
     (case cost of
        [ins_cost, del_cost, sub_cost, shift_cost] \<Rightarrow>
          if src = tar then Inr 0
          else if src = [] then Inr (real (length tar) * ins_cost)
          else if tar = [] then Inr (real (length src) * del_cost)
          else
            (case kbs layout of
               None \<Rightarrow> Inl (KeyError layout)
             | Some keyboard \<Rightarrow>
                 (case typo_fill keyboard metric ins_cost del_cost sub_cost shift_cost src tar
                         (typo_init ins_cost del_cost src tar) of
                    Inl e \<Rightarrow> Inl e
                  | Inr d_mat \<Rightarrow> Inr (d_mat (length src, length tar))))
      | _ \<Rightarrow> Inl UnpackError)"

text \<open>
  \<open>dist_typo\<close> has no layout parameter: \<open>typo\<close> runs with its default, QWERTY. The
  slice \<open>cost[:2]\<close> is unpacked into two names before \<open>typo\<close> is called.
\<close>

definition dist_typo :: "pystr \<Rightarrow> pystr \<Rightarrow> pystr \<Rightarrow> real list \<Rightarrow> error + real" where
  "dist_typo src tar metric cost =
     (if src = tar then Inr 0
      else if length cost < 2 then Inl UnpackError
      else
        (let ins_cost = cost ! 0; del_cost = cost ! 1
         in case typo src tar metric cost (py ''QWERTY'') of
              Inl e \<Rightarrow> Inl e
            | Inr raw \<Rightarrow>
                (let denom = max (real (length src) * del_cost) (real (length tar) * ins_cost)
                 in if denom = 0 then Inl ZeroDivisionError
                    else Inr (raw / denom))))"

definition sim_typo :: "pystr \<Rightarrow> pystr \<Rightarrow> pystr \<Rightarrow> real list \<Rightarrow> error + real" where
  "sim_typo src tar metric cost =
     (case dist_typo src tar metric cost of
        Inl e \<Rightarrow> Inl e
      | Inr dst \<Rightarrow> Inr (1 - dst))"

section \<open>Evaluation of the Editex tables and loops\<close>

lemma all_letters_eval:
  "all_letters = [65,66,67,68,69,70,71,73,74,75,76,77,78,79,80,81,82,83,84,85,86,88,89,90]"
  by (simp add: all_letters_def py_def)

lemma letter_groups_eval:
  "letter_groups = [[65,69,73,79,85,89],[66,80],[67,75,81],[68,84],[76,82],[77,78],[71,74],
                    [70,80,86],[83,88,90],[67,83,90]]"
  by (simp add: letter_groups_def py_def)

lemma wrap64_id: "- (2 ^ 63) \<le> n \<Longrightarrow> n < 2 ^ 63 \<Longrightarrow> wrap64 n = n"
  by (simp add: wrap64_def)

lemma wrap64_small:
  "- 9223372036854775808 \<le> n \<Longrightarrow> n < 9223372036854775808 \<Longrightarrow> wrap64 n = n"
  by (simp add: wrap64_def)

lemmas editex_loops =
  editex_dp_def editex_fill_def editex_row_def editex_row0_def editex_col0_def
  editex_row0_step_def editex_col0_step_def editex_cell_def np_zeros_def d_cost_def r_cost_def
  all_letters_eval letter_groups_eval wrap64_small py_min3_def upt_conv_Cons

lemmas ascii_prep = preprocess_def ascii_upper_def ascii_nfkd_def replace_eszett_def py_def

text \<open>Past the three early returns, \<open>editex\<close> is the last entry of the table.\<close>

lemma editex_unfold:
  assumes "preprocess U N s = S" "preprocess U N t = T" "S \<noteq> T" "S \<noteq> []" "T \<noteq> []"
  shows "editex U N s t [m, g, x] local =
    (case editex_dp (d_cost m g x) (r_cost m g x) (32 # S) (32 # T) (length S) (length T) local of
       Inl e \<Rightarrow> Inl e
     | Inr d_mat \<Rightarrow> Inr (PyInt (d_mat (length S, length T))))"
  using assms by (simp add: editex_def Let_def)

section \<open>The literal Editex scenarios\<close>

text \<open>
  Claim C4. With the default cost \<open>(0, 1, 2)\<close> and \<open>local = False\<close>,
  \<open>editex('cat', 'hat')\<close> is 2, \<open>editex('Niall', 'Neil')\<close> is 2 and
  \<open>editex('ATCG', 'TAGC')\<close> is 6. Of the Unicode library the statement uses only that
  preprocessing turns each of the six words into its upper-case spelling.
\<close>

theorem editex_examples:
  assumes "preprocess U N (py ''cat'') = py ''CAT''" "preprocess U N (py ''hat'') = py ''HAT''"
    "preprocess U N (py ''Niall'') = py ''NIALL''" "preprocess U N (py ''Neil'') = py ''NEIL''"
    "preprocess U N (py ''ATCG'') = py ''ATCG''" "preprocess U N (py ''TAGC'') = py ''TAGC''"
  shows "editex U N (py ''cat'') (py ''hat'') [PyInt 0, PyInt 1, PyInt 2] False = Inr (PyInt 2)
       \<and> editex U N (py ''Niall'') (py ''Neil'') [PyInt 0, PyInt 1, PyInt 2] False = Inr (PyInt 2)
       \<and> editex U N (py ''ATCG'') (py ''TAGC'') [PyInt 0, PyInt 1, PyInt 2] False = Inr (PyInt 6)"
proof -
  have "editex U N (py ''cat'') (py ''hat'') [PyInt 0, PyInt 1, PyInt 2] False = Inr (PyInt 2)"
    by (subst editex_unfold [OF assms(1) assms(2)]) (simp_all add: py_def editex_loops)
  moreover have "editex U N (py ''Niall'') (py ''Neil'') [PyInt 0, PyInt 1, PyInt 2] False = Inr (PyInt 2)"
    by (subst editex_unfold [OF assms(3) assms(4)]) (simp_all add: py_def editex_loops)
  moreover have "editex U N (py ''ATCG'') (py ''TAGC'') [PyInt 0, PyInt 1, PyInt 2] False = Inr (PyInt 6)"
    by (subst editex_unfold [OF assms(5) assms(6)]) (simp_all add: py_def editex_loops)
  ultimately show ?thesis by simp
qed

theorem editex_examples_witness:
  "editex ascii_upper ascii_nfkd (py ''cat'') (py ''hat'') [PyInt 0, PyInt 1, PyInt 2] False = Inr (PyInt 2)
 \<and> editex ascii_upper ascii_nfkd (py ''Niall'') (py ''Neil'') [PyInt 0, PyInt 1, PyInt 2] False = Inr (PyInt 2)
 \<and> editex ascii_upper ascii_nfkd (py ''ATCG'') (py ''TAGC'') [PyInt 0, PyInt 1, PyInt 2] False = Inr (PyInt 6)"
  by (rule editex_examples) (simp_all add: ascii_prep)

section \<open>The 64-bit table\<close>


lemma dist_editex_truncated:
  "dist_editex ascii_upper ascii_nfkd (py ''a'') (py ''b'') [PyInt 0, PyFloat (1/2), PyFloat (1/2)] False
     = Inr 0"
proof -
  have p: "preprocess ascii_upper ascii_nfkd (py ''a'') = [65]"
          "preprocess ascii_upper ascii_nfkd (py ''b'') = [66]"
    by (simp_all add: ascii_prep)
  have "editex ascii_upper ascii_nfkd (py ''a'') (py ''b'') [PyInt 0, PyFloat (1/2), PyFloat (1/2)] False
     = Inr (PyInt 0)"
    by (subst editex_unfold [OF p]) (simp_all add: editex_loops py_trunc_def)
  then show ?thesis
    by (simp add: dist_editex_def py_def)
qed

text \<open>
  As long as the costs are not negative and the sum of the two lengths times the
  largest cost is below \<open>2 ^ 63\<close>, no sum leaves the range and every store succeeds:
  the loops fill the table with the values of the recurrence \<open>editex_table\<close>.
\<close>

lemma for_loop_snoc:
  "for_loop body (xs @ [x]) s =
     (case for_loop body xs s of Inl e \<Rightarrow> Inl e | Inr s' \<Rightarrow> body x s')"
  by (induction xs arbitrary: s) (auto split: sum.splits)

lemma range_Suc: "[1..<Suc n + 1] = [1..<n + 1] @ [Suc n]"
  by simp

lemma for_loop_range_Suc:
  "for_loop body [1..<Suc n + 1] s =
     (case for_loop body [1..<n + 1] s of Inl e \<Rightarrow> Inl e | Inr s' \<Rightarrow> body (Suc n) s')"
  unfolding range_Suc by (rule for_loop_snoc)

lemma np_add_val:
  assumes "0 \<le> cell" "0 \<le> num_val c" "real_of_int cell + num_val c < 2 ^ 63"
  shows "np_val (np_add cell c) = real_of_int cell + num_val c"
proof (cases c)
  case (PyInt n)
  have "0 \<le> n" using assms(2) PyInt by simp
  moreover have "real_of_int (cell + n) < real_of_int (2 ^ 63)"
    using assms(3) PyInt by simp
  then have "cell + n < 2 ^ 63" by (simp only: of_int_less_iff)
  ultimately show ?thesis
    using assms(1) PyInt by (simp add: wrap64_id)
next
  case (PyFloat r)
  then show ?thesis by simp
qed

lemma py_min3_val:
  "np_val (py_min3 a b c) = min (np_val a) (min (np_val b) (np_val c))"
  by (simp add: py_min3_def Let_def min_def)

lemma np_store_floor:
  assumes "0 \<le> np_val v" "np_val v < 2 ^ 63"
  shows "np_store v = Inr \<lfloor>np_val v\<rfloor>"
proof (cases v)
  case (Int64 n)
  then show ?thesis by simp
next
  case (Float64 r)
  have "\<lfloor>r\<rfloor> < 2 ^ 63"
    using assms(2) Float64 by (simp add: floor_less_iff)
  moreover have "0 \<le> \<lfloor>r\<rfloor>"
    using assms(1) Float64 by simp
  ultimately show ?thesis
    using assms(1) Float64 by (simp add: py_trunc_def)
next
  case (PyObject n)
  have "real_of_int n < real_of_int (2 ^ 63)"
    using assms(2) PyObject by simp
  then have "n < 2 ^ 63" by (simp only: of_int_less_iff)
  then show ?thesis
    using assms(1) PyObject by simp
qed

lemma store_add:
  assumes "0 \<le> cell" "0 \<le> num_val c" "real_of_int cell + num_val c < 2 ^ 63"
  shows "np_store (np_add cell c) = Inr \<lfloor>real_of_int cell + num_val c\<rfloor>"
  using np_store_floor [of "np_add cell c"] assms by (simp add: np_add_val)

lemma store_min3:
  assumes "0 \<le> c1" "0 \<le> num_val n1" "real_of_int c1 + num_val n1 < 2 ^ 63"
    "0 \<le> c2" "0 \<le> num_val n2" "real_of_int c2 + num_val n2 < 2 ^ 63"
    "0 \<le> c3" "0 \<le> num_val n3" "real_of_int c3 + num_val n3 < 2 ^ 63"
  shows "np_store (py_min3 (np_add c1 n1) (np_add c2 n2) (np_add c3 n3)) =
     Inr \<lfloor>min (real_of_int c1 + num_val n1)
            (min (real_of_int c2 + num_val n2) (real_of_int c3 + num_val n3))\<rfloor>"
proof -
  let ?v = "py_min3 (np_add c1 n1) (np_add c2 n2) (np_add c3 n3)"
  have v: "np_val ?v = min (real_of_int c1 + num_val n1)
            (min (real_of_int c2 + num_val n2) (real_of_int c3 + num_val n3))"
    using assms by (simp only: py_min3_val np_add_val)
  have "0 \<le> np_val ?v" "np_val ?v < 2 ^ 63"
    unfolding v using assms by (simp_all add: min_def)
  then show ?thesis
    using np_store_floor [of ?v] by (simp only: v)
qed

lemma editex_table_bounds:
  "(\<forall>a b. 0 \<le> num_val (dc a b) \<and> num_val (dc a b) \<le> M) \<Longrightarrow>
   (\<forall>a b. 0 \<le> num_val (rc a b) \<and> num_val (rc a b) \<le> M) \<Longrightarrow>
     0 \<le> editex_table local dc rc src tar i j
   \<and> real_of_int (editex_table local dc rc src tar i j) \<le> real (i + j) * M"
proof (induction local dc rc src tar i j rule: editex_table.induct)
  case (1 local dc rc src tar)
  then show ?case by simp
next
  case (2 local dc rc src tar i)
  have M: "0 \<le> M" using "2.prems"(1) by (meson order_trans)
  show ?case
  proof (cases local)
    case True
    then show ?thesis using M by simp
  next
    case False
    let ?t = "editex_table local dc rc src tar i 0" and ?c = "num_val (dc (src ! i) (src ! Suc i))"
    have ih: "0 \<le> ?t" "real_of_int ?t \<le> real (i + 0) * M"
      using "2.IH" [OF False "2.prems"] by simp_all
    have c: "0 \<le> ?c" "?c \<le> M" using "2.prems"(1) by simp_all
    have "real_of_int \<lfloor>real_of_int ?t + ?c\<rfloor> \<le> real_of_int ?t + ?c" by simp
    also have "\<dots> \<le> real (Suc i + 0) * M"
      using ih(2) c(2) by (simp add: algebra_simps)
    finally show ?thesis
      using False ih(1) c(1) by simp
  qed
next
  case (3 local dc rc src tar j)
  let ?t = "editex_table local dc rc src tar 0 j" and ?c = "num_val (dc (tar ! j) (tar ! Suc j))"
  have ih: "0 \<le> ?t" "real_of_int ?t \<le> real (0 + j) * M"
    using "3.IH" [OF "3.prems"] by simp_all
  have c: "0 \<le> ?c" "?c \<le> M" using "3.prems"(1) by simp_all
  have "real_of_int \<lfloor>real_of_int ?t + ?c\<rfloor> \<le> real_of_int ?t + ?c" by simp
  also have "\<dots> \<le> real (0 + Suc j) * M"
    using ih(2) c(2) by (simp add: algebra_simps)
  finally show ?case
    using ih(1) c(1) by simp
next
  case (4 local dc rc src tar i j)
  let ?t1 = "editex_table local dc rc src tar i (Suc j)"
  let ?t2 = "editex_table local dc rc src tar (Suc i) j"
  let ?t3 = "editex_table local dc rc src tar i j"
  let ?c1 = "num_val (dc (src ! i) (src ! Suc i))"
  let ?c2 = "num_val (dc (tar ! j) (tar ! Suc j))"
  let ?c3 = "num_val (rc (src ! Suc i) (tar ! Suc j))"
  let ?m = "min (real_of_int ?t1 + ?c1) (min (real_of_int ?t2 + ?c2) (real_of_int ?t3 + ?c3))"
  have ih: "0 \<le> ?t1" "0 \<le> ?t2" "0 \<le> ?t3" "real_of_int ?t1 \<le> real (i + Suc j) * M"
    using "4.IH"(1) [OF "4.prems"] "4.IH"(2) [OF "4.prems"] "4.IH"(3) [OF "4.prems"] by simp_all
  have c: "0 \<le> ?c1" "?c1 \<le> M" "0 \<le> ?c2" "0 \<le> ?c3"
    using "4.prems" by simp_all
  have "real_of_int \<lfloor>?m\<rfloor> \<le> ?m" by (rule of_int_floor_le)
  also have "\<dots> \<le> real_of_int ?t1 + ?c1" by (rule min.cobounded1)
  also have "\<dots> \<le> real (Suc i + Suc j) * M"
    using ih(4) c(2) by (simp add: algebra_simps)
  finally have up: "real_of_int \<lfloor>?m\<rfloor> \<le> real (Suc i + Suc j) * M" .
  have "0 \<le> ?m" using ih(1-3) c(1,3,4) by (simp add: min_def)
  then have "0 \<le> \<lfloor>?m\<rfloor>" by (simp only: zero_le_floor)
  then show ?case using up by simp
qed


lemma editex_col0_Suc:
  "editex_col0 dc src (Suc n) d =
     (case editex_col0 dc src n d of Inl e \<Rightarrow> Inl e | Inr d' \<Rightarrow> editex_col0_step dc src (Suc n) d')"
  unfolding editex_col0_def by (rule for_loop_range_Suc)

lemma editex_row0_Suc:
  "editex_row0 dc tar (Suc n) d =
     (case editex_row0 dc tar n d of Inl e \<Rightarrow> Inl e | Inr d' \<Rightarrow> editex_row0_step dc tar (Suc n) d')"
  unfolding editex_row0_def by (rule for_loop_range_Suc)

lemma editex_row_Suc:
  "editex_row dc rc src tar (Suc n) i d =
     (case editex_row dc rc src tar n i d of
        Inl e \<Rightarrow> Inl e
      | Inr d' \<Rightarrow> editex_cell dc rc src tar i (Suc n) d')"
  unfolding editex_row_def by (rule for_loop_range_Suc)

lemma editex_fill_Suc:
  "editex_fill dc rc src tar (Suc n) lent d =
     (case editex_fill dc rc src tar n lent d of
        Inl e \<Rightarrow> Inl e
      | Inr d' \<Rightarrow> editex_row dc rc src tar lent (Suc n) d')"
  unfolding editex_fill_def by (rule for_loop_range_Suc)

lemma sum_in_range:
  assumes "0 \<le> c" "c \<le> M" "real_of_int t \<le> real k * M" "Suc k \<le> K"
    "real K * M < 2 ^ 63"
  shows "real_of_int t + c < 2 ^ 63"
proof -
  have M: "0 \<le> M" using assms(1,2) by simp
  have "real_of_int t + c \<le> real (Suc k) * M"
    using assms(2,3) by (simp add: algebra_simps)
  also have "\<dots> \<le> real K * M"
    using assms(4) M by (intro mult_right_mono) simp_all
  finally show ?thesis using assms(5) by simp
qed

lemma editex_col0_table:
  assumes cb: "\<forall>a b. 0 \<le> num_val (dc a b) \<and> num_val (dc a b) \<le> M"
    and rb: "\<forall>a b. 0 \<le> num_val (rc a b) \<and> num_val (rc a b) \<le> M"
    and B: "real (lens + lent) * M < 2 ^ 63"
  shows "n \<le> lens \<Longrightarrow> \<exists>d. editex_col0 dc src n np_zeros = Inr d
     \<and> (\<forall>i j. d (i, j) = (if j = 0 \<and> i \<le> n then editex_table False dc rc src tar i 0 else 0))"
proof (induction n)
  case 0
  then show ?case by (simp add: editex_col0_def np_zeros_def)
next
  case (Suc n)
  then obtain d where d: "editex_col0 dc src n np_zeros = Inr d"
    and dv: "\<And>i j. d (i, j) = (if j = 0 \<and> i \<le> n then editex_table False dc rc src tar i 0 else 0)"
    by auto
  let ?t = "editex_table False dc rc src tar n 0" and ?c = "dc (src ! n) (src ! Suc n)"
  have t: "0 \<le> ?t" "real_of_int ?t \<le> real n * M"
    using editex_table_bounds [OF cb rb, of False src tar n 0] by simp_all
  have c: "0 \<le> num_val ?c" "num_val ?c \<le> M" using cb by simp_all
  have "real_of_int ?t + num_val ?c < 2 ^ 63"
    using c t(2) _ B by (rule sum_in_range) (use Suc.prems in simp)
  then have "np_store (np_add ?t ?c) = Inr (editex_table False dc rc src tar (Suc n) 0)"
    using store_add [OF t(1) c(1)] by simp
  then have "editex_col0 dc src (Suc n) np_zeros =
               Inr (d((Suc n, 0) := editex_table False dc rc src tar (Suc n) 0))"
    using d dv [of n 0] by (simp add: editex_col0_Suc editex_col0_step_def)
  then show ?case
    using dv by (auto simp: le_Suc_eq)
qed

lemma editex_row0_table:
  assumes cb: "\<forall>a b. 0 \<le> num_val (dc a b) \<and> num_val (dc a b) \<le> M"
    and rb: "\<forall>a b. 0 \<le> num_val (rc a b) \<and> num_val (rc a b) \<le> M"
    and B: "real (lens + lent) * M < 2 ^ 63"
    and z: "d (0, 0) = 0"
  shows "n \<le> lent \<Longrightarrow> \<exists>d'. editex_row0 dc tar n d = Inr d'
     \<and> (\<forall>i j. d' (i, j) =
           (if i = 0 \<and> 1 \<le> j \<and> j \<le> n then editex_table local dc rc src tar 0 j else d (i, j)))"
proof (induction n)
  case 0
  then show ?case by (simp add: editex_row0_def)
next
  case (Suc n)
  then obtain d' where d': "editex_row0 dc tar n d = Inr d'"
    and dv: "\<And>i j. d' (i, j) =
           (if i = 0 \<and> 1 \<le> j \<and> j \<le> n then editex_table local dc rc src tar 0 j else d (i, j))"
    by auto
  let ?t = "editex_table local dc rc src tar 0 n" and ?c = "dc (tar ! n) (tar ! Suc n)"
  have cell: "d' (0, n) = ?t"
    using dv [of 0 n] z by (cases n) simp_all
  have t: "0 \<le> ?t" "real_of_int ?t \<le> real n * M"
    using editex_table_bounds [OF cb rb, of local src tar 0 n] by simp_all
  have c: "0 \<le> num_val ?c" "num_val ?c \<le> M" using cb by simp_all
  have "real_of_int ?t + num_val ?c < 2 ^ 63"
    using c t(2) _ B by (rule sum_in_range) (use Suc.prems in simp)
  then have "np_store (np_add ?t ?c) = Inr (editex_table local dc rc src tar 0 (Suc n))"
    using store_add [OF t(1) c(1)] by simp
  then have "editex_row0 dc tar (Suc n) d =
               Inr (d'((0, Suc n) := editex_table local dc rc src tar 0 (Suc n)))"
    using d' cell by (simp add: editex_row0_Suc editex_row0_step_def)
  then show ?case
    using dv by (auto simp: le_Suc_eq)
qed

lemma editex_row_table:
  assumes cb: "\<forall>a b. 0 \<le> num_val (dc a b) \<and> num_val (dc a b) \<le> M"
    and rb: "\<forall>a b. 0 \<le> num_val (rc a b) \<and> num_val (rc a b) \<le> M"
    and B: "real (lens + lent) * M < 2 ^ 63"
    and k: "Suc k \<le> lens"
    and prev: "\<And>j. j \<le> lent \<Longrightarrow> d (k, j) = editex_table local dc rc src tar k j"
    and first: "d (Suc k, 0) = editex_table local dc rc src tar (Suc k) 0"
  shows "n \<le> lent \<Longrightarrow> \<exists>d'. editex_row dc rc src tar n (Suc k) d = Inr d'
     \<and> (\<forall>i j. d' (i, j) =
           (if i = Suc k \<and> 1 \<le> j \<and> j \<le> n then editex_table local dc rc src tar (Suc k) j
            else d (i, j)))"
proof (induction n)
  case 0
  then show ?case by (simp add: editex_row_def)
next
  case (Suc n)
  then obtain d' where d': "editex_row dc rc src tar n (Suc k) d = Inr d'"
    and dv: "\<And>i j. d' (i, j) =
           (if i = Suc k \<and> 1 \<le> j \<and> j \<le> n then editex_table local dc rc src tar (Suc k) j
            else d (i, j))"
    by auto
  let ?t1 = "editex_table local dc rc src tar k (Suc n)"
  let ?t2 = "editex_table local dc rc src tar (Suc k) n"
  let ?t3 = "editex_table local dc rc src tar k n"
  let ?c1 = "dc (src ! k) (src ! Suc k)"
  let ?c2 = "dc (tar ! n) (tar ! Suc n)"
  let ?c3 = "rc (src ! Suc k) (tar ! Suc n)"
  have cells: "d' (k, Suc n) = ?t1" "d' (Suc k, n) = ?t2" "d' (k, n) = ?t3"
    using dv [of k "Suc n"] dv [of "Suc k" n] dv [of k n] prev [of "Suc n"] prev [of n] first
      Suc.prems
    by (cases n; simp)+
  have t: "0 \<le> ?t1" "real_of_int ?t1 \<le> real (k + Suc n) * M"
    "0 \<le> ?t2" "real_of_int ?t2 \<le> real (Suc k + n) * M"
    "0 \<le> ?t3" "real_of_int ?t3 \<le> real (k + n) * M"
    using editex_table_bounds [OF cb rb, of local src tar k "Suc n"]
      editex_table_bounds [OF cb rb, of local src tar "Suc k" n]
      editex_table_bounds [OF cb rb, of local src tar k n]
    by simp_all
  have c: "0 \<le> num_val ?c1" "num_val ?c1 \<le> M" "0 \<le> num_val ?c2" "num_val ?c2 \<le> M"
    "0 \<le> num_val ?c3" "num_val ?c3 \<le> M"
    using cb rb by simp_all
  have r1: "real_of_int ?t1 + num_val ?c1 < 2 ^ 63"
    using c(1,2) t(2) _ B by (rule sum_in_range) (use k Suc.prems in simp)
  have r2: "real_of_int ?t2 + num_val ?c2 < 2 ^ 63"
    using c(3,4) t(4) _ B by (rule sum_in_range) (use k Suc.prems in simp)
  have r3: "real_of_int ?t3 + num_val ?c3 < 2 ^ 63"
    using c(5,6) t(6) _ B by (rule sum_in_range) (use k Suc.prems in simp)
  have "np_store (py_min3 (np_add ?t1 ?c1) (np_add ?t2 ?c2) (np_add ?t3 ?c3)) =
          Inr (editex_table local dc rc src tar (Suc k) (Suc n))"
    using store_min3 [OF t(1) c(1) r1 t(3) c(3) r2 t(5) c(5) r3] by simp
  then have "editex_row dc rc src tar (Suc n) (Suc k) d =
               Inr (d'((Suc k, Suc n) := editex_table local dc rc src tar (Suc k) (Suc n)))"
    using d' cells by (simp add: editex_row_Suc editex_cell_def)
  then show ?case
    using dv by (auto simp: le_Suc_eq)
qed

lemma editex_fill_table:
  assumes cb: "\<forall>a b. 0 \<le> num_val (dc a b) \<and> num_val (dc a b) \<le> M"
    and rb: "\<forall>a b. 0 \<le> num_val (rc a b) \<and> num_val (rc a b) \<le> M"
    and B: "real (lens + lent) * M < 2 ^ 63"
    and row0: "\<And>j. j \<le> lent \<Longrightarrow> d (0, j) = editex_table local dc rc src tar 0 j"
    and col0: "\<And>i. i \<le> lens \<Longrightarrow> d (i, 0) = editex_table local dc rc src tar i 0"
  shows "n \<le> lens \<Longrightarrow> \<exists>d'. editex_fill dc rc src tar n lent d = Inr d'
     \<and> (\<forall>i j. d' (i, j) =
           (if 1 \<le> i \<and> i \<le> n \<and> 1 \<le> j \<and> j \<le> lent then editex_table local dc rc src tar i j
            else d (i, j)))"
proof (induction n)
  case 0
  then show ?case by (simp add: editex_fill_def)
next
  case (Suc n)
  then obtain d' where d': "editex_fill dc rc src tar n lent d = Inr d'"
    and dv: "\<And>i j. d' (i, j) =
           (if 1 \<le> i \<and> i \<le> n \<and> 1 \<le> j \<and> j \<le> lent then editex_table local dc rc src tar i j
            else d (i, j))"
    by auto
  have prev: "d' (n, j) = editex_table local dc rc src tar n j" if "j \<le> lent" for j
    using dv [of n j] row0 [of j] col0 [of n] that Suc.prems
    by (cases n; cases j) auto
  have first: "d' (Suc n, 0) = editex_table local dc rc src tar (Suc n) 0"
    using dv [of "Suc n" 0] col0 [of "Suc n"] Suc.prems by simp
  obtain d'' where d'': "editex_row dc rc src tar lent (Suc n) d' = Inr d''"
    and dv': "\<And>i j. d'' (i, j) =
           (if i = Suc n \<and> 1 \<le> j \<and> j \<le> lent then editex_table local dc rc src tar (Suc n) j
            else d' (i, j))"
    using editex_row_table [OF cb rb B Suc.prems prev first, of lent] by auto
  have "editex_fill dc rc src tar (Suc n) lent d = Inr d''"
    using d' d'' by (simp add: editex_fill_Suc)
  then show ?case
    using dv dv' by (auto simp: le_Suc_eq)
qed

lemma editex_dp_table:
  assumes cb: "\<forall>a b. 0 \<le> num_val (dc a b) \<and> num_val (dc a b) \<le> M"
    and rb: "\<forall>a b. 0 \<le> num_val (rc a b) \<and> num_val (rc a b) \<le> M"
    and B: "real (lens + lent) * M < 2 ^ 63"
  shows "\<exists>d. editex_dp dc rc src tar lens lent local = Inr d
     \<and> (\<forall>i j. i \<le> lens \<longrightarrow> j \<le> lent \<longrightarrow> d (i, j) = editex_table local dc rc src tar i j)"
proof -
  obtain d0 where d0: "(if \<not> local then editex_col0 dc src lens np_zeros else Inr np_zeros) = Inr d0"
    and d0v: "\<And>i j. d0 (i, j) =
                (if j = 0 \<and> i \<le> lens then editex_table local dc rc src tar i 0 else 0)"
  proof (cases local)
    case True
    have "editex_table True dc rc src tar i 0 = 0" for i
      by (cases i) simp_all
    then show ?thesis
      using True that [of np_zeros] by (simp add: np_zeros_def)
  next
    case False
    then show ?thesis
      using editex_col0_table [OF cb rb B, of lens src tar] that by auto
  qed
  have z: "d0 (0, 0) = 0" using d0v [of 0 0] by simp
  obtain d1 where d1: "editex_row0 dc tar lent d0 = Inr d1"
    and d1v: "\<And>i j. d1 (i, j) =
           (if i = 0 \<and> 1 \<le> j \<and> j \<le> lent then editex_table local dc rc src tar 0 j else d0 (i, j))"
    using editex_row0_table [where d = d0 and n = lent and local = local and src = src and tar = tar,
            OF cb rb B z] by auto
  have row0: "d1 (0, j) = editex_table local dc rc src tar 0 j" if "j \<le> lent" for j
    using d1v [of 0 j] d0v [of 0 0] that by (cases j) auto
  have col0: "d1 (i, 0) = editex_table local dc rc src tar i 0" if "i \<le> lens" for i
    using d1v [of i 0] d0v [of i 0] that by simp
  obtain d2 where d2: "editex_fill dc rc src tar lens lent d1 = Inr d2"
    and d2v: "\<And>i j. d2 (i, j) =
           (if 1 \<le> i \<and> i \<le> lens \<and> 1 \<le> j \<and> j \<le> lent then editex_table local dc rc src tar i j
            else d1 (i, j))"
    using editex_fill_table [OF cb rb B row0 col0, of lens] by auto
  have "d2 (i, j) = editex_table local dc rc src tar i j" if "i \<le> lens" "j \<le> lent" for i j
    using d2v [of i j] row0 [of j] col0 [of i] that by (cases i; cases j) auto
  then show ?thesis
    using d0 d1 d2 by (simp add: editex_dp_def)
qed


lemma cost_bounds:
  assumes "0 \<le> num_val m" "0 \<le> num_val g" "0 \<le> num_val x"
    "num_val m \<le> M" "num_val g \<le> M" "num_val x \<le> M"
  shows "\<forall>a b. 0 \<le> num_val (d_cost m g x a b) \<and> num_val (d_cost m g x a b) \<le> M"
    and "\<forall>a b. 0 \<le> num_val (r_cost m g x a b) \<and> num_val (r_cost m g x a b) \<le> M"
  using assms by (simp_all add: d_cost_def r_cost_def)

lemma editex_by_table:
  assumes "0 \<le> num_val m" "0 \<le> num_val g" "0 \<le> num_val x"
    "num_val m \<le> M" "num_val g \<le> M" "num_val x \<le> M"
    and B: "real (length S + length T) * M < 2 ^ 63"
    and p: "preprocess U N s = S" "preprocess U N t = T" "S \<noteq> T" "S \<noteq> []" "T \<noteq> []"
  shows "editex U N s t [m, g, x] local =
     Inr (PyInt (editex_table local (d_cost m g x) (r_cost m g x) (32 # S) (32 # T)
                   (length S) (length T)))"
proof -
  obtain d where "editex_dp (d_cost m g x) (r_cost m g x) (32 # S) (32 # T)
                    (length S) (length T) local = Inr d"
    and "d (length S, length T) =
           editex_table local (d_cost m g x) (r_cost m g x) (32 # S) (32 # T) (length S) (length T)"
    using editex_dp_table [where src = "32 # S" and tar = "32 # T" and local = local,
            OF cost_bounds [OF assms(1-6)] B] by auto
  then show ?thesis
    by (simp add: editex_unfold [OF p])
qed

section \<open>The local variant\<close>



lemma editex_ba_a:
  "editex ascii_upper ascii_nfkd (py ''ba'') (py ''a'') [PyInt 0, PyInt 1, PyInt 2] True = Inr (PyInt 0)"
  "editex ascii_upper ascii_nfkd (py ''ba'') (py ''a'') [PyInt 0, PyInt 1, PyInt 2] False = Inr (PyInt 2)"
proof -
  have p: "preprocess ascii_upper ascii_nfkd (py ''ba'') = [66, 65]"
          "preprocess ascii_upper ascii_nfkd (py ''a'') = [65]"
    by (simp_all add: ascii_prep)
  show "editex ascii_upper ascii_nfkd (py ''ba'') (py ''a'') [PyInt 0, PyInt 1, PyInt 2] True = Inr (PyInt 0)"
    by (subst editex_unfold [OF p]) (simp_all add: editex_loops)
  show "editex ascii_upper ascii_nfkd (py ''ba'') (py ''a'') [PyInt 0, PyInt 1, PyInt 2] False = Inr (PyInt 2)"
    by (subst editex_unfold [OF p]) (simp_all add: editex_loops)
qed



section \<open>The early returns\<close>

text \<open>
  Claim C9. The distance of a string to itself is 0: \<open>editex(s, s)\<close> and \<open>typo(s, s)\<close>
  for every cost tuple of the right length, and \<open>dist_editex(s, s)\<close> and
  \<open>dist_typo(s, s)\<close> for every argument \<open>cost\<close>; the empty string is included.
\<close>

theorem identity_distance_zero:
  "editex U N s s [match_cost, group_cost, mismatch_cost] local = Inr (PyInt 0)
 \<and> typo s s metric [ins_cost, del_cost, sub_cost, shift_cost] layout = Inr 0
 \<and> dist_editex U N s s cost local = Inr 0
 \<and> dist_typo s s metric cost' = Inr 0"
  by (simp add: editex_def typo_def dist_editex_def dist_typo_def)

lemma cost_arity4: "length cost = 4 \<Longrightarrow> \<exists>a b c d. cost = [a, b, c, d]"
  by (cases cost; simp; rename_tac a l1; case_tac l1; simp; rename_tac b l2; case_tac l2; simp;
      rename_tac c l3; case_tac l3; simp)

text \<open>
  Claim C10. In \<open>typo\<close> the comparison \<open>src == tar\<close> comes before the layout lookup, the
  metric lookup and every character lookup: for every string \<open>s\<close>, every cost tuple of
  four components and arbitrary \<open>metric\<close> and \<open>layout\<close> strings,
  \<open>typo(s, s, metric, cost, layout)\<close> returns 0.0 and raises nothing.
\<close>

theorem typo_equal_input_first:
  "length cost = 4 \<Longrightarrow> typo s s metric cost layout = Inr 0"
  using cost_arity4 [of cost] by (auto simp: typo_def)

theorem typo_equal_input_first_witness:
  "length [1, 1, 1/2, 1/2 :: real] = 4
 \<and> kbs (py ''nokeyboard'') = None \<and> metric_dict (py ''bogus'') = None
 \<and> typo [8364, 97] [8364, 97] (py ''bogus'') [1, 1, 1/2, 1/2] (py ''nokeyboard'') = Inr 0"
  using typo_equal_input_first [of "[1, 1, 1/2, 1/2]" "[8364, 97]" "py ''bogus''" "py ''nokeyboard''"]
  by (simp add: kbs_def metric_dict_def py_def)

text \<open>
  Claim C7, as amended. \<open>editex\<close> tests for emptiness after preprocessing and returns
  the length of the preprocessed other string times the mismatch cost: when the
  preprocessed \<open>src\<close> is empty and the preprocessed \<open>tar\<close> is not, the result is
  \<open>len\<close> of the preprocessed \<open>tar\<close> times the mismatch cost, and symmetrically. For
  \<open>typo\<close>, which does not preprocess, an empty \<open>src\<close> gives \<open>len(tar)\<close> times the insert
  cost and an empty \<open>tar\<close> gives \<open>len(src)\<close> times the delete cost.
\<close>

theorem empty_input_fast_path:
  "(preprocess U N s = [] \<and> preprocess U N t \<noteq> [] \<longrightarrow>
      editex U N s t [match_cost, group_cost, mismatch_cost] local
        = Inr (py_mul (length (preprocess U N t)) mismatch_cost))
 \<and> (preprocess U N t = [] \<and> preprocess U N s \<noteq> [] \<longrightarrow>
      editex U N s t [match_cost, group_cost, mismatch_cost] local
        = Inr (py_mul (length (preprocess U N s)) mismatch_cost))
 \<and> (tar \<noteq> [] \<longrightarrow>
      typo [] tar metric [ins_cost, del_cost, sub_cost, shift_cost] layout
        = Inr (real (length tar) * ins_cost))
 \<and> (src \<noteq> [] \<longrightarrow>
      typo src [] metric [ins_cost, del_cost, sub_cost, shift_cost] layout
        = Inr (real (length src) * del_cost))"
  by (auto simp: editex_def typo_def Let_def)

theorem empty_input_fast_path_witness:
  "editex ascii_upper ascii_nfkd [] (py ''abc'') [PyInt 0, PyInt 1, PyInt 2] False = Inr (PyInt 6)
 \<and> editex ascii_upper ascii_nfkd (py ''abc'') [] [PyInt 0, PyInt 1, PyInt 2] False = Inr (PyInt 6)
 \<and> typo [] (py ''abc'') (py ''euclidean'') [1, 1, 1/2, 1/2] (py ''QWERTY'') = Inr 3
 \<and> typo (py ''ab'') [] (py ''euclidean'') [1, 1, 1/2, 1/2] (py ''QWERTY'') = Inr 2"
  using empty_input_fast_path [of ascii_upper ascii_nfkd "[]" "py ''abc''" "PyInt 0" "PyInt 1" "PyInt 2" False
          "py ''abc''" "py ''euclidean''" 1 1 "1/2" "1/2" "py ''QWERTY''" "py ''ab''"]
        empty_input_fast_path [of ascii_upper ascii_nfkd "py ''abc''" "[]" "PyInt 0" "PyInt 1" "PyInt 2" False
          "py ''abc''" "py ''euclidean''" 1 1 "1/2" "1/2" "py ''QWERTY''" "py ''ab''"]
  by (simp add: ascii_prep)

text \<open>
  The claim as stated measures the string that was passed: it fails for the one-character
  string U+00DF, which preprocessing turns into \<open>SS\<close>.
\<close>

theorem editex_empty_source_eszett:
  "editex ascii_upper ascii_nfkd [] [223] [PyInt 0, PyInt 1, PyInt 2] False = Inr (PyInt 4)
 \<and> editex ascii_upper ascii_nfkd [] [223] [PyInt 0, PyInt 1, PyInt 2] False
     \<noteq> Inr (py_mul (length [223 :: nat]) (PyInt 2))"
  by (simp add: editex_def ascii_prep)

section \<open>Loops that may raise, key lookup and the metrics\<close>







lemma metric_dict_cases:
  "metric_dict metric = Some metric_fn \<Longrightarrow>
     metric_fn = euclidean_keyboard_distance \<or> metric_fn = manhattan_keyboard_distance
   \<or> metric_fn = log_euclidean_keyboard_distance \<or> metric_fn = log_manhattan_keyboard_distance"
  by (auto simp: metric_dict_def split: if_splits)

lemmas metric_defs =
  euclidean_keyboard_distance_def manhattan_keyboard_distance_def
  log_euclidean_keyboard_distance_def log_manhattan_keyboard_distance_def




lemma metric_symmetric:
  assumes "metric_dict metric = Some metric_fn" "metric_fn kb a b = Inr x"
  shows "metric_fn kb b a = Inr x"
  using metric_dict_cases [OF assms(1)] assms(2)
  by (auto simp: metric_defs power2_commute abs_minus_commute
           split: sum.splits prod.splits)






lemma substitution_cost_symmetric:
  assumes "substitution_cost kb metric sub_cost shift_cost a b = Inr v"
  shows "substitution_cost kb metric sub_cost shift_cost b a = Inr v"
proof (cases "metric_dict metric")
  case None
  then show ?thesis using assms by (simp add: substitution_cost_def)
next
  case (Some metric_fn)
  then show ?thesis
    using assms
    by (auto simp: substitution_cost_def split: sum.splits dest: metric_symmetric [OF Some])
qed

section \<open>Symmetry of the pair costs\<close>

lemma r_cost_symmetric: "r_cost m g x a b = r_cost m g x b a"
proof -
  have "(\<lambda>group. a \<in> set group \<and> b \<in> set group) = (\<lambda>group. b \<in> set group \<and> a \<in> set group)"
    by auto
  then show ?thesis by (auto simp: r_cost_def)
qed

text \<open>
  Claim C8. The per-symbol pair cost is symmetric in both policies: for all characters
  \<open>a\<close> and \<open>b\<close>, \<open>r_cost(a, b) = r_cost(b, a)\<close>, and for every metric and layout
  \<open>_substitution_cost(a, b)\<close> returns a cost exactly when \<open>_substitution_cost(b, a)\<close>
  returns it (so the two calls return the same cost, or both raise).
\<close>

theorem pair_cost_symmetric:
  "r_cost match_cost group_cost mismatch_cost a b = r_cost match_cost group_cost mismatch_cost b a
 \<and> (substitution_cost kb metric sub_cost shift_cost a b = Inr v
      \<longleftrightarrow> substitution_cost kb metric sub_cost shift_cost b a = Inr v)"
  using r_cost_symmetric substitution_cost_symmetric by blast

section \<open>The double loop of typo\<close>






section \<open>Evaluation of the QWERTY layout\<close>

lemma kbs_eval:
  "kbs (py ''QWERTY'') = Some (qwerty_lower, qwerty_upper)"
  "kbs (py ''nokeyboard'') = None"
  by (simp_all add: kbs_def py_def)

lemma metric_dict_eval:
  "metric_dict (py ''euclidean'') = Some euclidean_keyboard_distance"
  "metric_dict (py ''manhattan'') = Some manhattan_keyboard_distance"
  "metric_dict (py ''bogus'') = None"
  by (simp_all add: metric_dict_def py_def)

lemma qwerty_lower_eval:
  "qwerty_lower =
     [[[96], [49], [50], [51], [52], [53], [54], [55], [56], [57], [48], [45], [61]],
      [[], [113], [119], [101], [114], [116], [121], [117], [105], [111], [112], [91], [93], [92]],
      [[], [97], [115], [100], [102], [103], [104], [106], [107], [108], [59], [39]],
      [[], [122], [120], [99], [118], [98], [110], [109], [44], [46], [47]]]"
  by (simp add: qwerty_lower_def keys_def)

lemma qwerty_upper_eval:
  "qwerty_upper =
     [[[126], [33], [64], [35], [36], [37], [94], [38], [42], [40], [41], [95], [43]],
      [[], [81], [87], [69], [82], [84], [89], [85], [73], [79], [80], [123], [125], [124]],
      [[], [65], [83], [68], [70], [71], [72], [74], [75], [76], [58], [34]],
      [[], [90], [88], [67], [86], [66], [78], [77], [60], [62], [63]]]"
  by (simp add: qwerty_upper_def keys_def)

lemmas typo_loops =
  typo_init_def typo_fill_def typo_row_def typo_cell_def typo_col0_step_def typo_row0_step_def
  np_zeros_def

lemma py_eval: "py ''a'' = [97]" "py ''aa'' = [97, 97]" "py ''b'' = [98]" "py ''q'' = [113]" "py ''p'' = [112]"
  by (simp_all add: py_def)


lemma qwerty_coords:
  "kb_array_for_char (qwerty_lower, qwerty_upper) 113 = Inr qwerty_lower"
  "kb_array_for_char (qwerty_lower, qwerty_upper) 112 = Inr qwerty_lower"
  "kb_array_for_char (qwerty_lower, qwerty_upper) 99 = Inr qwerty_lower"
  "kb_array_for_char (qwerty_lower, qwerty_upper) 72 = Inr qwerty_upper"
  "char_coord (qwerty_lower, qwerty_upper) 113 = Inr (1, 1)"
  "char_coord (qwerty_lower, qwerty_upper) 112 = Inr (1, 10)"
  "char_coord (qwerty_lower, qwerty_upper) 99 = Inr (3, 3)"
  "char_coord (qwerty_lower, qwerty_upper) 72 = Inr (2, 6)"
  by (simp_all add: char_coord_def kb_array_for_char_def lowercase_def uppercase_def
        get_char_coord_def qwerty_lower_eval qwerty_upper_eval)

lemma qwerty_tables_differ: "qwerty_lower \<noteq> qwerty_upper"
  by (simp add: qwerty_lower_eval qwerty_upper_eval)

theorem pair_cost_symmetric_witness:
  "substitution_cost (qwerty_lower, qwerty_upper) (py ''manhattan'') (1/2) (1/2) 99 72 = Inr (9/4)
 \<and> substitution_cost (qwerty_lower, qwerty_upper) (py ''manhattan'') (1/2) (1/2) 72 99 = Inr (9/4)
 \<and> r_cost (PyInt 0) (PyInt 1) (PyInt 2) 65 69 = PyInt 1
 \<and> r_cost (PyInt 0) (PyInt 1) (PyInt 2) 69 65 = PyInt 1"
proof -
  have a: "substitution_cost (qwerty_lower, qwerty_upper) (py ''manhattan'') (1/2) (1/2) 99 72
             = Inr (9/4)"
    by (simp add: substitution_cost_def metric_dict_eval manhattan_keyboard_distance_def
          qwerty_coords qwerty_tables_differ)
  have b: "r_cost (PyInt 0) (PyInt 1) (PyInt 2) 65 69 = PyInt 1"
    by (simp add: r_cost_def all_letters_eval letter_groups_eval)
  show ?thesis
    using a b
      pair_cost_symmetric [of "PyInt 0" "PyInt 1" "PyInt 2" 99 72 "(qwerty_lower, qwerty_upper)"
        "py ''manhattan''" "1/2" "1/2" "9/4"]
      pair_cost_symmetric [of "PyInt 0" "PyInt 1" "PyInt 2" 65 69 "(qwerty_lower, qwerty_upper)"
        "py ''manhattan''" "1/2" "1/2" "9/4"]
    by simp
qed

section \<open>The bounds of the normalized distances\<close>

lemma sqrt_81: "sqrt 81 = 9"
  using real_sqrt_abs [of 9] by simp

lemma typo_q_p:
  "typo (py ''q'') (py ''p'') (py ''euclidean'') [1, 1, 1/2, 1/2] (py ''QWERTY'') = Inr 2"
  by (simp add: typo_def kbs_eval typo_loops substitution_cost_def metric_dict_eval
       euclidean_keyboard_distance_def qwerty_coords sqrt_81 py_eval)

text \<open>
  Claim C1 says that the normalized distances lie between 0 and 1. With the default
  metric, cost and layout, \<open>dist_typo('q', 'p')\<close> is 2: the two keys are nine columns
  apart, so the substitution costs 4.5, a deletion and an insertion cost 2 together,
  and the divisor is \<open>max(1 * 1, 1 * 1) = 1\<close>.
\<close>

theorem dist_typo_above_one:
  "dist_typo (py ''q'') (py ''p'') (py ''euclidean'') [1, 1, 1/2, 1/2] = Inr 2"
  using typo_q_p by (simp add: dist_typo_def py_eval)

text \<open>
  \<open>dist_editex\<close> divides by the lengths of the strings as passed, while \<open>editex\<close>
  measures them after preprocessing: for U+00DF and the empty string the quotient is 2.
\<close>

lemma dist_editex_above_one:
  "dist_editex ascii_upper ascii_nfkd [223] [] [PyInt 0, PyInt 1, PyInt 2] False = Inr 2"
  by (simp add: dist_editex_def editex_def ascii_prep)

section \<open>Errors of typo\<close>









section \<open>Distance zero\<close>

lemma remdups_adj_snoc:
  "remdups_adj (xs @ [c]) =
     (if xs \<noteq> [] \<and> last xs = c then remdups_adj xs else remdups_adj xs @ [c])"
  by (induction xs rule: remdups_adj.induct) auto

lemma remdups_adj_snoc_cong:
  assumes "remdups_adj xs = remdups_adj ys"
  shows "remdups_adj (xs @ [c]) = remdups_adj (ys @ [c])"
proof -
  have "xs = [] \<longleftrightarrow> ys = []"
    using assms by (metis remdups_adj_Nil_iff)
  moreover have "last xs = last ys"
    using assms by (metis last_remdups_adj)
  ultimately show ?thesis
    using assms by (simp add: remdups_adj_snoc)
qed

lemma remdups_adj_take_repeat:
  assumes "Suc i < length xs" "xs ! i = xs ! Suc i"
  shows "remdups_adj (take (Suc (Suc i)) xs) = remdups_adj (take (Suc i) xs)"
proof -
  have "take (Suc (Suc i)) xs = take (Suc i) xs @ [xs ! Suc i]"
    using assms(1) by (simp add: take_Suc_conv_app_nth)
  moreover have "take (Suc i) xs \<noteq> []" "last (take (Suc i) xs) = xs ! i"
    using assms(1) by (auto simp: take_Suc_conv_app_nth)
  ultimately show ?thesis
    using assms(2) by (simp add: remdups_adj_snoc)
qed

lemma remdups_adj_take_same:
  assumes "Suc i < length xs" "Suc j < length ys" "xs ! Suc i = ys ! Suc j"
    "remdups_adj (take (Suc i) xs) = remdups_adj (take (Suc j) ys)"
  shows "remdups_adj (take (Suc (Suc i)) xs) = remdups_adj (take (Suc (Suc j)) ys)"
  using assms remdups_adj_snoc_cong [OF assms(4), of "xs ! Suc i"]
  by (simp add: take_Suc_conv_app_nth)

lemma editex_table_nonneg:
  "(\<forall>a b. 0 \<le> num_val (dc a b)) \<Longrightarrow> (\<forall>a b. 0 \<le> num_val (rc a b)) \<Longrightarrow>
     0 \<le> editex_table local dc rc src tar i j"
  by (induction local dc rc src tar i j rule: editex_table.induct) (simp_all add: min_def)

lemma floor_sum_zero:
  assumes "0 \<le> t" "0 \<le> c" "\<lfloor>real_of_int t + c\<rfloor> = 0"
  shows "t = 0 \<and> c < 1"
proof -
  have "t + \<lfloor>c\<rfloor> = 0" using assms(3) by simp
  moreover have "0 \<le> \<lfloor>c\<rfloor>" using assms(2) by simp
  ultimately have "t = 0" "\<lfloor>c\<rfloor> = 0" using assms(1) by linarith+
  then show ?thesis by (simp add: floor_eq_iff)
qed

lemma floor_min3_zero:
  "\<lfloor>min a (min b c)\<rfloor> = (0 :: int) \<Longrightarrow> \<lfloor>a\<rfloor> = 0 \<or> \<lfloor>b\<rfloor> = 0 \<or> \<lfloor>c :: real\<rfloor> = 0"
  by (auto simp: min_def split: if_splits)

lemma editex_table_zero:
  "\<not> local \<Longrightarrow> (\<forall>a b. 0 \<le> num_val (dc a b)) \<Longrightarrow> (\<forall>a b. 0 \<le> num_val (rc a b)) \<Longrightarrow>
   (\<forall>a b. num_val (dc a b) < 1 \<longrightarrow> a = b) \<Longrightarrow> (\<forall>a b. num_val (rc a b) < 1 \<longrightarrow> a = b) \<Longrightarrow>
   src ! 0 = tar ! 0 \<Longrightarrow> i < length src \<Longrightarrow> j < length tar \<Longrightarrow>
   editex_table local dc rc src tar i j = 0 \<Longrightarrow>
     remdups_adj (take (Suc i) src) = remdups_adj (take (Suc j) tar)"
proof (induction local dc rc src tar i j rule: editex_table.induct)
  case (1 local dc rc src tar)
  have "take (Suc 0) src = [src ! 0]" "take (Suc 0) tar = [tar ! 0]"
    using "1.prems"(7,8) by (simp_all add: take_Suc_conv_app_nth)
  then show ?case
    using "1.prems"(6) by simp
next
  case (2 local dc rc src tar i)
  let ?t = "editex_table local dc rc src tar i 0" and ?c = "num_val (dc (src ! i) (src ! Suc i))"
  have "0 \<le> ?t" "0 \<le> ?c"
    using "2.prems"(2,3) by (simp_all add: editex_table_nonneg)
  moreover have "\<lfloor>real_of_int ?t + ?c\<rfloor> = 0"
    using "2.prems"(1,9) by simp
  ultimately have tz: "?t = 0" and cz: "?c < 1"
    using floor_sum_zero by blast+
  have rep: "src ! i = src ! Suc i"
    using "2.prems"(4) cz by blast
  have "remdups_adj (take (Suc i) src) = remdups_adj (take (Suc 0) tar)"
    by (rule "2.IH" [OF "2.prems"(1) "2.prems"(1-6)]) (use "2.prems"(7,8) tz in simp_all)
  then show ?case
    using rep "2.prems"(7) by (simp only: remdups_adj_take_repeat)
next
  case (3 local dc rc src tar j)
  let ?t = "editex_table local dc rc src tar 0 j" and ?c = "num_val (dc (tar ! j) (tar ! Suc j))"
  have "0 \<le> ?t" "0 \<le> ?c"
    using "3.prems"(2,3) by (simp_all add: editex_table_nonneg)
  moreover have "\<lfloor>real_of_int ?t + ?c\<rfloor> = 0"
    using "3.prems"(9) by simp
  ultimately have tz: "?t = 0" and cz: "?c < 1"
    using floor_sum_zero by blast+
  have rep: "tar ! j = tar ! Suc j"
    using "3.prems"(4) cz by blast
  have "remdups_adj (take (Suc 0) src) = remdups_adj (take (Suc j) tar)"
    by (rule "3.IH" [OF "3.prems"(1-6)]) (use "3.prems"(7,8) tz in simp_all)
  then show ?case
    using rep "3.prems"(8) by (simp only: remdups_adj_take_repeat)
next
  case (4 local dc rc src tar i j)
  let ?t1 = "editex_table local dc rc src tar i (Suc j)"
  let ?t2 = "editex_table local dc rc src tar (Suc i) j"
  let ?t3 = "editex_table local dc rc src tar i j"
  let ?c1 = "num_val (dc (src ! i) (src ! Suc i))"
  let ?c2 = "num_val (dc (tar ! j) (tar ! Suc j))"
  let ?c3 = "num_val (rc (src ! Suc i) (tar ! Suc j))"
  have nn: "0 \<le> ?t1" "0 \<le> ?t2" "0 \<le> ?t3" "0 \<le> ?c1" "0 \<le> ?c2" "0 \<le> ?c3"
    using "4.prems"(2,3) by (simp_all add: editex_table_nonneg)
  have i: "i < length src" and j: "j < length tar"
    using "4.prems"(7,8) by simp_all
  have "\<lfloor>min (real_of_int ?t1 + ?c1) (min (real_of_int ?t2 + ?c2) (real_of_int ?t3 + ?c3))\<rfloor> = 0"
    using "4.prems"(9) by (simp only: editex_table.simps)
  then consider (del) "\<lfloor>real_of_int ?t1 + ?c1\<rfloor> = 0" | (ins) "\<lfloor>real_of_int ?t2 + ?c2\<rfloor> = 0"
    | (sub) "\<lfloor>real_of_int ?t3 + ?c3\<rfloor> = 0"
    using floor_min3_zero by blast
  then show ?case
  proof cases
    case del
    then have tz: "?t1 = 0" and cz: "?c1 < 1"
      using floor_sum_zero [OF nn(1) nn(4)] by blast+
    have rep: "src ! i = src ! Suc i"
      using "4.prems"(4) cz by blast
    have "remdups_adj (take (Suc i) src) = remdups_adj (take (Suc (Suc j)) tar)"
      by (rule "4.IH"(1) [OF "4.prems"(1-6) i "4.prems"(8) tz])
    then show ?thesis
      using rep "4.prems"(7) by (simp only: remdups_adj_take_repeat)
  next
    case ins
    then have tz: "?t2 = 0" and cz: "?c2 < 1"
      using floor_sum_zero [OF nn(2) nn(5)] by blast+
    have rep: "tar ! j = tar ! Suc j"
      using "4.prems"(4) cz by blast
    have "remdups_adj (take (Suc (Suc i)) src) = remdups_adj (take (Suc j) tar)"
      by (rule "4.IH"(2) [OF "4.prems"(1-6) "4.prems"(7) j tz])
    then show ?thesis
      using rep "4.prems"(8) by (simp only: remdups_adj_take_repeat)
  next
    case sub
    then have tz: "?t3 = 0" and cz: "?c3 < 1"
      using floor_sum_zero [OF nn(3) nn(6)] by blast+
    have same: "src ! Suc i = tar ! Suc j"
      using "4.prems"(5) cz by blast
    have "remdups_adj (take (Suc i) src) = remdups_adj (take (Suc j) tar)"
      by (rule "4.IH"(3) [OF "4.prems"(1-6) i j tz])
    then show ?thesis
      using "4.prems"(7,8) same by (rule remdups_adj_take_same [rotated 3])
  qed
qed


lemma num_val_py_mul: "num_val (py_mul k c) = real k * num_val c"
  by (cases c) simp_all

lemma cost_below_one:
  assumes "1 \<le> num_val g" "1 \<le> num_val x"
  shows "\<forall>a b. num_val (d_cost m g x a b) < 1 \<longrightarrow> a = b"
    and "\<forall>a b. num_val (r_cost m g x a b) < 1 \<longrightarrow> a = b"
  using assms by (auto simp: d_cost_def r_cost_def split: if_splits)

lemma editex_zero:
  assumes c: "0 \<le> num_val m" "1 \<le> num_val g" "1 \<le> num_val x"
    and M: "num_val m \<le> M" "num_val g \<le> M" "num_val x \<le> M"
    and B: "real (length (preprocess U N s) + length (preprocess U N t)) * M < 2 ^ 63"
    and e: "editex U N s t [m, g, x] False = Inr raw" "num_val raw = 0"
  shows "remdups_adj (32 # preprocess U N s) = remdups_adj (32 # preprocess U N t)"
proof -
  let ?S = "preprocess U N s" and ?T = "preprocess U N t"
  have g: "0 \<le> num_val g" and x: "0 \<le> num_val x" using c(2,3) by simp_all
  show ?thesis
  proof (cases "?S = ?T")
    case True
    then show ?thesis by simp
  next
    case ne: False
    show ?thesis
    proof (cases "?S = [] \<or> ?T = []")
      case True
      then have "raw = py_mul (length ?T) x \<and> ?T \<noteq> [] \<or> raw = py_mul (length ?S) x \<and> ?S \<noteq> []"
        using e(1) ne by (auto simp: editex_def Let_def split: if_splits)
      then have "\<exists>k. 0 < k \<and> num_val raw = real k * num_val x"
      proof
        assume "raw = py_mul (length ?T) x \<and> ?T \<noteq> []"
        then show ?thesis
          by (intro exI [of _ "length ?T"]) (simp add: num_val_py_mul)
      next
        assume "raw = py_mul (length ?S) x \<and> ?S \<noteq> []"
        then show ?thesis
          by (intro exI [of _ "length ?S"]) (simp add: num_val_py_mul)
      qed
      then obtain k where "0 < k" "num_val raw = real k * num_val x"
        by blast
      then have "0 < num_val raw"
        using c(3) by simp
      then show ?thesis using e(2) by simp
    next
      case False
      then have p: "?S \<noteq> []" "?T \<noteq> []" by simp_all
      have "editex U N s t [m, g, x] False =
              Inr (PyInt (editex_table False (d_cost m g x) (r_cost m g x) (32 # ?S) (32 # ?T)
                            (length ?S) (length ?T)))"
        by (rule editex_by_table [OF c(1) g x M B refl refl ne p])
      then have z: "editex_table False (d_cost m g x) (r_cost m g x) (32 # ?S) (32 # ?T)
                 (length ?S) (length ?T) = 0"
        using e by auto
      have nn: "\<forall>a b. 0 \<le> num_val (d_cost m g x a b)" "\<forall>a b. 0 \<le> num_val (r_cost m g x a b)"
        using cost_bounds [OF c(1) g x M] by simp_all
      have "remdups_adj (take (Suc (length ?S)) (32 # ?S))
          = remdups_adj (take (Suc (length ?T)) (32 # ?T))"
        by (rule editex_table_zero [OF _ nn cost_below_one [OF c(2,3)] _ _ _ z]) simp_all
      then show ?thesis by simp
    qed
  qed
qed

text \<open>
  Claim C6, as amended. With \<open>local = False\<close> and a cost tuple of numbers whose match
  cost is not negative, whose group and mismatch costs are at least 1, and which are
  small enough for the table not to overflow (the sum of the lengths of the two
  preprocessed strings times the largest cost is below \<open>2 ^ 63\<close>): if
  \<open>dist_editex(s, t)\<close> is 0, then the preprocessed strings are identical once every run
  of a repeated character is collapsed to one character (a run of blanks at the start
  is dropped: the strings are compared behind the leading blank that \<open>editex\<close> puts in
  front of both).
\<close>

theorem dist_editex_zero:
  assumes "0 \<le> num_val match_cost" "1 \<le> num_val group_cost" "1 \<le> num_val mismatch_cost"
    "num_val match_cost \<le> M" "num_val group_cost \<le> M" "num_val mismatch_cost \<le> M"
    "real (length (preprocess U N s) + length (preprocess U N t)) * M < 2 ^ 63"
    "dist_editex U N s t [match_cost, group_cost, mismatch_cost] False = Inr 0"
  shows "remdups_adj (32 # preprocess U N s) = remdups_adj (32 # preprocess U N t)"
proof (cases "s = t")
  case True
  then show ?thesis by simp
next
  case False
  then have "0 < length s \<or> 0 < length t"
    by (cases s; cases t) auto
  then have "0 < real (length s) * num_val mismatch_cost
           \<or> 0 < real (length t) * num_val mismatch_cost"
    using assms(3) by (auto simp: zero_less_mult_iff)
  then have "max (num_val (py_mul (length s) mismatch_cost))
                 (num_val (py_mul (length t) mismatch_cost)) \<noteq> 0"
    by (auto simp: max_def num_val_py_mul)
  then obtain raw where "editex U N s t [match_cost, group_cost, mismatch_cost] False = Inr raw"
    "num_val raw = 0"
    using assms(8) False
    by (auto simp: dist_editex_def Let_def split: sum.splits if_splits)
  then show ?thesis
    by (rule editex_zero [OF assms(1-7)])
qed

lemma dist_editex_aa_a:
  "dist_editex ascii_upper ascii_nfkd (py ''aa'') (py ''a'') [PyInt 0, PyInt 1, PyInt 2] False = Inr 0"
proof -
  have p: "preprocess ascii_upper ascii_nfkd (py ''aa'') = [65, 65]"
          "preprocess ascii_upper ascii_nfkd (py ''a'') = [65]"
    by (simp_all add: ascii_prep)
  have "editex ascii_upper ascii_nfkd (py ''aa'') (py ''a'') [PyInt 0, PyInt 1, PyInt 2] False
          = Inr (PyInt 0)"
    by (subst editex_unfold [OF p]) (simp_all add: editex_loops)
  then show ?thesis
    by (simp add: dist_editex_def py_def)
qed

theorem dist_editex_zero_witness:
  "0 \<le> num_val (PyInt 0) \<and> 1 \<le> num_val (PyInt 1) \<and> 1 \<le> num_val (PyInt 2)
 \<and> num_val (PyInt 0) \<le> 2 \<and> num_val (PyInt 1) \<le> 2 \<and> num_val (PyInt 2) \<le> 2
 \<and> real (length (preprocess ascii_upper ascii_nfkd (py ''aa''))
           + length (preprocess ascii_upper ascii_nfkd (py ''a''))) * 2 < 2 ^ 63
 \<and> dist_editex ascii_upper ascii_nfkd (py ''aa'') (py ''a'') [PyInt 0, PyInt 1, PyInt 2] False = Inr 0
 \<and> remdups_adj (32 # preprocess ascii_upper ascii_nfkd (py ''aa''))
     = remdups_adj (32 # preprocess ascii_upper ascii_nfkd (py ''a''))"
proof -
  have len: "real (length (preprocess ascii_upper ascii_nfkd (py ''aa''))
           + length (preprocess ascii_upper ascii_nfkd (py ''a''))) * 2 < 2 ^ 63"
    by (simp add: ascii_prep)
  show ?thesis
    using dist_editex_zero [of "PyInt 0" "PyInt 1" "PyInt 2" 2 ascii_upper ascii_nfkd
            "py ''aa''" "py ''a''"] len dist_editex_aa_a
    by simp
qed

text \<open>
  The claim as stated fails: deleting a character that repeats its predecessor costs
  \<open>d_cost(a, a)\<close>, the match cost 0, so \<open>aa\<close> and \<open>a\<close> are at distance 0. So are
  \<open>a\<close> and \<open>b\<close> with the costs \<open>(0, 0.5, 0.5)\<close>, which the table cuts to 0, and
  \<open>ba\<close> and \<open>a\<close> in the local variant, where a prefix of \<open>src\<close> is free.
\<close>

theorem dist_editex_zero_distinct:
  "dist_editex ascii_upper ascii_nfkd (py ''aa'') (py ''a'') [PyInt 0, PyInt 1, PyInt 2] False = Inr 0
 \<and> preprocess ascii_upper ascii_nfkd (py ''aa'') \<noteq> preprocess ascii_upper ascii_nfkd (py ''a'')
 \<and> dist_editex ascii_upper ascii_nfkd (py ''a'') (py ''b'') [PyInt 0, PyFloat (1/2), PyFloat (1/2)] False
     = Inr 0
 \<and> remdups_adj (32 # preprocess ascii_upper ascii_nfkd (py ''a''))
     \<noteq> remdups_adj (32 # preprocess ascii_upper ascii_nfkd (py ''b''))
 \<and> dist_editex ascii_upper ascii_nfkd (py ''ba'') (py ''a'') [PyInt 0, PyInt 1, PyInt 2] True = Inr 0
 \<and> remdups_adj (32 # preprocess ascii_upper ascii_nfkd (py ''ba''))
     \<noteq> remdups_adj (32 # preprocess ascii_upper ascii_nfkd (py ''a''))"
proof -
  have "dist_editex ascii_upper ascii_nfkd (py ''ba'') (py ''a'') [PyInt 0, PyInt 1, PyInt 2] True = Inr 0"
    using editex_ba_a(1) by (simp add: dist_editex_def py_def)
  then show ?thesis
    using dist_editex_aa_a dist_editex_truncated by (simp add: ascii_prep)
qed

end
